theory Spec2Isabelle
  imports Main "HOL-Library.Word"
begin

section \<open>Python values, exceptions and the platform constants\<close>

text \<open>
  The driver \<^verbatim>\<open>onlykey/client.py\<close> is Python 3 (it indexes \<^verbatim>\<open>bytes\<close> objects to
  get integers, builds frames with \<^verbatim>\<open>bytes([..])\<close> and calls \<^verbatim>\<open>bytes.hex()\<close>). A byte is
  an 8-bit word, a \<^verbatim>\<open>bytes\<close> object a list of them. Every exception the modelled code can
  raise is a value of \<open>error\<close>.
\<close>

type_synonym byte = "8 word"

datatype error =
    Exception string
  | ValueError
  | TypeError
  | KeyError
  | IndexError
  | AssertionError
  | UnicodeEncodeError
  | UnicodeDecodeError
  | UnboundLocalError
  | OnlyKeyUnavailableException

text \<open>
  The shapes of argument the code distinguishes: \<^verbatim>\<open>None\<close>, \<^verbatim>\<open>bytes\<close>, \<^verbatim>\<open>str\<close> (a list of
  code points), a list of integers, an integer, and, standing for every other type, a
  tuple of integers.
\<close>

datatype pyobj =
    PyNone
  | PyBytes "byte list"
  | PyStr "nat list"
  | PyList "int list"
  | PyInt int
  | PyTuple "int list"

text \<open>Python truth value testing, as used by \<^verbatim>\<open>if payload:\<close> and \<^verbatim>\<open>if slot_id:\<close>.\<close>

fun truthy :: "pyobj \<Rightarrow> bool" where
  "truthy PyNone = False"
| "truthy (PyBytes bs) = (bs \<noteq> [])"
| "truthy (PyStr s) = (s \<noteq> [])"
| "truthy (PyList xs) = (xs \<noteq> [])"
| "truthy (PyInt i) = (i \<noteq> 0)"
| "truthy (PyTuple xs) = (xs \<noteq> [])"

definition ebind :: "error + 'a \<Rightarrow> ('a \<Rightarrow> error + 'b) \<Rightarrow> error + 'b" where
  "ebind r f = (case r of Inl e \<Rightarrow> Inl e | Inr x \<Rightarrow> f x)"

text \<open>\<^verbatim>\<open>bytes(xs)\<close> for a list of integers: \<^verbatim>\<open>ValueError\<close> unless every element is in
  \<^verbatim>\<open>range(256)\<close>.\<close>

definition py_bytes :: "int list \<Rightarrow> error + byte list" where
  "py_bytes xs =
     (if list_all (\<lambda>x. 0 \<le> x \<and> x < 256) xs then Inr (map word_of_int xs)
      else Inl ValueError)"

text \<open>\<^verbatim>\<open>str.encode("utf-8")\<close>: one to four bytes per code point; a surrogate code point
  cannot be encoded. A Python \<^verbatim>\<open>str\<close> holds no code point above \<^verbatim>\<open>0x10FFFF\<close>.\<close>

definition encode_cp :: "nat \<Rightarrow> error + byte list" where
  "encode_cp c =
     (if c < 128 then Inr [of_nat c]
      else if c < 2048 then Inr [of_nat (192 + c div 64), of_nat (128 + c mod 64)]
      else if 55296 \<le> c \<and> c < 57344 then Inl UnicodeEncodeError
      else if c < 65536 then
        Inr [of_nat (224 + c div 4096), of_nat (128 + (c div 64) mod 64),
             of_nat (128 + c mod 64)]
      else if c < 1114112 then
        Inr [of_nat (240 + c div 262144), of_nat (128 + (c div 4096) mod 64),
             of_nat (128 + (c div 64) mod 64), of_nat (128 + c mod 64)]
      else Inl UnicodeEncodeError)"

fun encode_utf8 :: "nat list \<Rightarrow> error + byte list" where
  "encode_utf8 [] = Inr []"
| "encode_utf8 (c # cs) =
     ebind (encode_cp c) (\<lambda>b. ebind (encode_utf8 cs) (\<lambda>bs. Inr (b @ bs)))"

text \<open>\<^verbatim>\<open>os.name == 'nt'\<close> selects the report size and the header (lines 19 to 29).\<close>

datatype os = NT | Posix

definition MAX_INPUT_REPORT_SIZE :: "os \<Rightarrow> nat" where
  "MAX_INPUT_REPORT_SIZE s = (case s of NT \<Rightarrow> 65 | Posix \<Rightarrow> 64)"

definition MESSAGE_HEADER :: "os \<Rightarrow> int list" where
  "MESSAGE_HEADER s = (case s of NT \<Rightarrow> [0, 255, 255, 255, 255] | Posix \<Rightarrow> [255, 255, 255, 255])"

definition MAX_LARGE_PAYLOAD_SIZE :: nat where
  "MAX_LARGE_PAYLOAD_SIZE = 58"

section \<open>Slots\<close>

definition SLOTS_NAME_table :: "(int \<times> string) list" where
  "SLOTS_NAME_table =
     [(1, ''1a''), (2, ''2a''), (3, ''3a''), (4, ''4a''), (5, ''5a''), (6, ''6a''),
      (7, ''1b''), (8, ''2b''), (9, ''3b''), (10, ''4b''), (11, ''5b''), (12, ''6b''),
      (25, ''RSA Key 1''), (26, ''RSA Key 2''), (27, ''RSA Key 3''), (28, ''RSA Key 4''),
      (29, ''ECC Key 1''), (30, ''ECC Key 2''), (31, ''ECC Key 3''), (32, ''ECC Key 4''),
      (33, ''ECC Key 5''), (34, ''ECC Key 6''), (35, ''ECC Key 7''), (36, ''ECC Key 8''),
      (37, ''ECC Key 9''), (38, ''ECC Key 10''), (39, ''ECC Key 11''), (40, ''ECC Key 12''),
      (41, ''ECC Key 13''), (42, ''ECC Key 14''), (43, ''ECC Key 15''), (44, ''ECC Key 16''),
      (45, ''ECC Key 17''), (46, ''ECC Key 18''), (47, ''ECC Key 19''), (48, ''ECC Key 20''),
      (49, ''ECC Key 21''), (50, ''ECC Key 22''), (51, ''ECC Key 23''), (52, ''ECC Key 24''),
      (53, ''ECC Key 25''), (54, ''ECC Key 26''), (55, ''ECC Key 27''), (56, ''ECC Key 28''),
      (57, ''ECC Key 29''), (58, ''ECC Key 30''), (59, ''ECC Key 31''), (60, ''ECC Key 32'')]"

definition SLOTS_NAME :: "int \<rightharpoonup> string" where
  "SLOTS_NAME = map_of SLOTS_NAME_table"

text \<open>The exception classes the module itself defines (line 135).\<close>

definition module_exceptions :: "error list" where
  "module_exceptions = [OnlyKeyUnavailableException]"

record slot =
  number :: int
  label :: string
  name :: string

text \<open>\<^verbatim>\<open>Slot.__init__\<close>: the subscript \<^verbatim>\<open>SLOTS_NAME[num]\<close> raises \<^verbatim>\<open>KeyError\<close> for a
  number that is not a key of the table.\<close>

definition Slot_init :: "int \<Rightarrow> string \<Rightarrow> error + slot" where
  "Slot_init num lbl =
     (case SLOTS_NAME num of
        None \<Rightarrow> Inl KeyError
      | Some n \<Rightarrow> Inr \<lparr>number = num, label = lbl, name = n\<rparr>)"

section \<open>Messages\<close>

datatype message =
    OKSETPIN | OKSETSDPIN | OKSETPDPIN | OKSETTIME | OKGETLABELS | OKSETSLOT
  | OKWIPESLOT | OKSETU2FPRIV | OKWIPEU2FPRIV | OKSETU2FCERT | OKWIPEU2FCERT
  | OKGETPUBKEY | OKSIGNCHALLENGE | OKWIPEPRIV | OKSETPRIV | OKDECRYPT | OKRESTORE

fun message_value :: "message \<Rightarrow> int" where
  "message_value OKSETPIN = 225"
| "message_value OKSETSDPIN = 226"
| "message_value OKSETPDPIN = 227"
| "message_value OKSETTIME = 228"
| "message_value OKGETLABELS = 229"
| "message_value OKSETSLOT = 230"
| "message_value OKWIPESLOT = 231"
| "message_value OKSETU2FPRIV = 232"
| "message_value OKWIPEU2FPRIV = 233"
| "message_value OKSETU2FCERT = 234"
| "message_value OKWIPEU2FCERT = 235"
| "message_value OKGETPUBKEY = 236"
| "message_value OKSIGNCHALLENGE = 237"
| "message_value OKWIPEPRIV = 238"
| "message_value OKSETPRIV = 239"
| "message_value OKDECRYPT = 240"
| "message_value OKRESTORE = 241"

datatype message_field =
    LABEL | URL | DELAY1 | NEXTKEY4 | USERNAME | NEXTKEY1 | NEXTKEY2 | DELAY2
  | PASSWORD | NEXTKEY3 | DELAY3 | NEXTKEY5 | TFATYPE | TOTPKEY | YUBIAUTH
  | IDLETIMEOUT | WIPEMODE | KEYTYPESPEED | KEYLAYOUT | LEDBRIGHTNESS
  | SECPROFILEMODE | PGPCHALENGEMODE | SSHCHALENGEMODE | BACKUPMODE

fun message_field_value :: "message_field \<Rightarrow> int" where
  "message_field_value LABEL = 1"
| "message_field_value URL = 15"
| "message_field_value DELAY1 = 17"
| "message_field_value NEXTKEY4 = 18"
| "message_field_value USERNAME = 2"
| "message_field_value NEXTKEY1 = 16"
| "message_field_value NEXTKEY2 = 3"
| "message_field_value DELAY2 = 4"
| "message_field_value PASSWORD = 5"
| "message_field_value NEXTKEY3 = 6"
| "message_field_value DELAY3 = 7"
| "message_field_value NEXTKEY5 = 19"
| "message_field_value TFATYPE = 8"
| "message_field_value TOTPKEY = 9"
| "message_field_value YUBIAUTH = 10"
| "message_field_value IDLETIMEOUT = 11"
| "message_field_value WIPEMODE = 12"
| "message_field_value KEYTYPESPEED = 13"
| "message_field_value KEYLAYOUT = 14"
| "message_field_value LEDBRIGHTNESS = 24"
| "message_field_value SECPROFILEMODE = 23"
| "message_field_value PGPCHALENGEMODE = 22"
| "message_field_value SSHCHALENGEMODE = 21"
| "message_field_value BACKUPMODE = 20"

section \<open>The transport\<close>

text \<open>
  The HID handle is an external collaborator. Its state is the log of the reports written
  so far and the reports the device will hand to the coming \<^verbatim>\<open>read\<close> calls, in order:
  an empty entry is a read that times out, and once the list is used up every read
  times out.
\<close>

record hid =
  writes :: "byte list list"
  reads :: "byte list list"

definition hid_write :: "hid \<Rightarrow> byte list \<Rightarrow> hid" where
  "hid_write h raw = h\<lparr>writes := writes h @ [raw]\<rparr>"

definition hid_read :: "nat \<Rightarrow> hid \<Rightarrow> byte list \<times> hid" where
  "hid_read n h =
     (case reads h of
        [] \<Rightarrow> ([], h)
      | r # rs \<Rightarrow> (take n r, h\<lparr>reads := rs\<rparr>))"

section \<open>The frame encoder: \<^verbatim>\<open>send_message\<close>\<close>

text \<open>Lines 223 to 226: the message tag, when a message is given (an enum member is
  always true).\<close>

definition msg_bytes :: "message option \<Rightarrow> error + byte list" where
  "msg_bytes msg =
     (case msg of None \<Rightarrow> Inr [] | Some m \<Rightarrow> py_bytes [message_value m])"

text \<open>Lines 228 to 231: the slot id, when it is neither \<^verbatim>\<open>None\<close> nor \<^verbatim>\<open>0\<close>.\<close>

definition slot_bytes :: "int option \<Rightarrow> error + byte list" where
  "slot_bytes slot_id =
     (case slot_id of
        None \<Rightarrow> Inr []
      | Some s \<Rightarrow> if truthy (PyInt s) then py_bytes [s] else Inr [])"

text \<open>Lines 233 to 236: the field tag.\<close>

definition field_bytes :: "message_field option \<Rightarrow> error + byte list" where
  "field_bytes message_field =
     (case message_field of None \<Rightarrow> Inr [] | Some f \<Rightarrow> py_bytes [message_field_value f])"

text \<open>Lines 238 to 253: the payload. The list branch evaluates \<^verbatim>\<open>chr(c)\<close> for every
  element before \<^verbatim>\<open>bytes(payload)\<close>; both raise \<^verbatim>\<open>ValueError\<close>, \<^verbatim>\<open>chr\<close> for an
  element outside \<^verbatim>\<open>range(0x110000)\<close>.\<close>

definition py_chr_all :: "int list \<Rightarrow> error + unit" where
  "py_chr_all xs =
     (if list_all (\<lambda>c. 0 \<le> c \<and> c < 1114112) xs then Inr () else Inl ValueError)"

definition payload_bytes :: "pyobj \<Rightarrow> error + byte list" where
  "payload_bytes payload =
     (if truthy payload then
        (case payload of
           PyBytes bs \<Rightarrow> Inr bs
         | PyStr s \<Rightarrow> encode_utf8 s
         | PyList xs \<Rightarrow> ebind (py_chr_all xs) (\<lambda>_. py_bytes xs)
         | PyInt i \<Rightarrow> py_bytes [i]
         | _ \<Rightarrow> Inl (Exception ''`payload` must be either `str` or `list`''))
      else Inr [])"

text \<open>Lines 254 to 256: the padding loop.\<close>

function pad :: "nat \<Rightarrow> byte list \<Rightarrow> byte list" where
  "pad n raw_bytes = (if length raw_bytes < n then pad n (raw_bytes @ [0]) else raw_bytes)"
  by pat_completeness auto
termination
  by (relation "measure (\<lambda>(n, raw_bytes). n - length raw_bytes)") auto

declare pad.simps [simp del]

text \<open>Lines 221 to 253: the bytes of the report before padding.\<close>

definition raw_fields :: "os \<Rightarrow> pyobj \<Rightarrow> message option \<Rightarrow> int option \<Rightarrow> message_field option
    \<Rightarrow> error + byte list" where
  "raw_fields s payload msg slot_id message_field =
     ebind (py_bytes (MESSAGE_HEADER s)) (\<lambda>hdr.
     ebind (msg_bytes msg) (\<lambda>mb.
     ebind (slot_bytes slot_id) (\<lambda>sb.
     ebind (field_bytes message_field) (\<lambda>fb.
     ebind (payload_bytes payload) (\<lambda>pb.
       Inr (hdr @ mb @ sb @ fb @ pb))))))"

text \<open>\<^verbatim>\<open>send_message\<close>: the error raised, if any, and the transport afterwards. Every
  raise comes before the write.\<close>

definition send_message :: "os \<Rightarrow> pyobj \<Rightarrow> message option \<Rightarrow> int option \<Rightarrow> message_field option
    \<Rightarrow> hid \<Rightarrow> error option \<times> hid" where
  "send_message s payload msg slot_id message_field h =
     (case raw_fields s payload msg slot_id message_field of
        Inl e \<Rightarrow> (Some e, h)
      | Inr raw_bytes \<Rightarrow> (None, hid_write h (pad (MAX_INPUT_REPORT_SIZE s) raw_bytes)))"

section \<open>The chunked senders\<close>

text \<open>\<^verbatim>\<open>range(x, n, step)\<close> for a positive step (the senders use the constants 58 and
  57; \<^verbatim>\<open>range\<close> refuses a zero step), and the slice \<^verbatim>\<open>xs[a:b]\<close> for
  \<^verbatim>\<open>0 <= a <= b\<close>, which stops at the end of the sequence.\<close>

function py_range :: "nat \<Rightarrow> nat \<Rightarrow> nat \<Rightarrow> nat list" where
  "py_range x n step = (if 0 < step \<and> x < n then x # py_range (x + step) n step else [])"
  by pat_completeness auto
termination
  by (relation "measure (\<lambda>(x, n, step). n - x)") auto

declare py_range.simps [simp del]

definition py_slice :: "'a list \<Rightarrow> nat \<Rightarrow> nat \<Rightarrow> 'a list" where
  "py_slice xs a b = take (b - a) (drop a xs)"

text \<open>The comprehension \<^verbatim>\<open>[payload[x:x+width] for x in range(0, len(payload), step)]\<close>
  (lines 268 and 292) on a sequence.\<close>

definition chunks_of :: "nat \<Rightarrow> nat \<Rightarrow> 'a list \<Rightarrow> 'a list list" where
  "chunks_of width step payload =
     map (\<lambda>x. py_slice payload x (x + width)) (py_range 0 (length payload) step)"

text \<open>The same on a Python value: \<^verbatim>\<open>len\<close> of \<^verbatim>\<open>None\<close> or of an integer raises
  \<^verbatim>\<open>TypeError\<close>; a slice has the type of the sequence it is cut from.\<close>

definition split_payload :: "nat \<Rightarrow> nat \<Rightarrow> pyobj \<Rightarrow> error + pyobj list" where
  "split_payload width step payload =
     (case payload of
        PyNone \<Rightarrow> Inl TypeError
      | PyInt i \<Rightarrow> Inl TypeError
      | PyBytes bs \<Rightarrow> Inr (map PyBytes (chunks_of width step bs))
      | PyStr s \<Rightarrow> Inr (map PyStr (chunks_of width step s))
      | PyList xs \<Rightarrow> Inr (map PyList (chunks_of width step xs))
      | PyTuple xs \<Rightarrow> Inr (map PyTuple (chunks_of width step xs)))"

fun py_len :: "pyobj \<Rightarrow> error + nat" where
  "py_len PyNone = Inl TypeError"
| "py_len (PyInt i) = Inl TypeError"
| "py_len (PyBytes bs) = Inr (length bs)"
| "py_len (PyStr s) = Inr (length s)"
| "py_len (PyList xs) = Inr (length xs)"
| "py_len (PyTuple xs) = Inr (length xs)"

text \<open>Lines 277 to 281 and 303 to 307: a list chunk goes through \<^verbatim>\<open>bytes(chunk)\<close>; any
  other chunk is added to the \<^verbatim>\<open>bytes\<close> object as it is, which only \<^verbatim>\<open>bytes\<close> allows.\<close>

definition append_chunk :: "byte list \<Rightarrow> pyobj \<Rightarrow> error + byte list" where
  "append_chunk current_payload chunk =
     (case chunk of
        PyList xs \<Rightarrow> ebind (py_bytes xs) (\<lambda>b. Inr (current_payload @ b))
      | PyBytes bs \<Rightarrow> Inr (current_payload @ bs)
      | _ \<Rightarrow> Inl TypeError)"

text \<open>Lines 272 to 281: the payload \<^verbatim>\<open>send_large_message\<close> hands to \<^verbatim>\<open>send_message\<close>
  for one chunk.\<close>

definition large_payload :: "pyobj \<Rightarrow> error + byte list" where
  "large_payload chunk =
     ebind (py_len chunk) (\<lambda>n.
     ebind (if n < 58 then py_bytes [int n] else py_bytes [255]) (\<lambda>current_payload.
       append_chunk current_payload chunk))"

text \<open>Lines 296 to 307: the same for \<^verbatim>\<open>send_large_message2\<close>, with the slot id first.\<close>

definition large_payload2 :: "int \<Rightarrow> pyobj \<Rightarrow> error + byte list" where
  "large_payload2 slot_id chunk =
     ebind (py_len chunk) (\<lambda>n.
     ebind (if n < 57 then py_bytes [slot_id, int n] else py_bytes [slot_id, 255])
       (\<lambda>current_payload. append_chunk current_payload chunk))"

text \<open>The loop \<^verbatim>\<open>for chunk in chunks\<close> of both senders: the reports written before a
  raise stay written.\<close>

fun send_chunks :: "os \<Rightarrow> message \<Rightarrow> (pyobj \<Rightarrow> error + byte list) \<Rightarrow> pyobj list \<Rightarrow> hid
    \<Rightarrow> error option \<times> hid" where
  "send_chunks s m build [] h = (None, h)"
| "send_chunks s m build (chunk # chunks) h =
     (case build chunk of
        Inl e \<Rightarrow> (Some e, h)
      | Inr current_payload \<Rightarrow>
          (case send_message s (PyBytes current_payload) (Some m) None None h of
             (Some e, h') \<Rightarrow> (Some e, h')
           | (None, h') \<Rightarrow> send_chunks s m build chunks h'))"

text \<open>\<^verbatim>\<open>send_large_message\<close> (its \<^verbatim>\<open>slot_id\<close> argument is never used) and
  \<^verbatim>\<open>send_large_message2\<close>.\<close>

definition send_large_message :: "os \<Rightarrow> pyobj \<Rightarrow> message option \<Rightarrow> hid \<Rightarrow> error option \<times> hid" where
  "send_large_message s payload msg h =
     (case msg of
        None \<Rightarrow> (Some (Exception ''Missing msg''), h)
      | Some m \<Rightarrow>
          (case split_payload MAX_LARGE_PAYLOAD_SIZE 58 payload of
             Inl e \<Rightarrow> (Some e, h)
           | Inr chunks \<Rightarrow> send_chunks s m large_payload chunks h))"

definition send_large_message2 :: "os \<Rightarrow> pyobj \<Rightarrow> message option \<Rightarrow> int \<Rightarrow> hid
    \<Rightarrow> error option \<times> hid" where
  "send_large_message2 s payload msg slot_id h =
     (case msg of
        None \<Rightarrow> (Some (Exception ''Missing msg''), h)
      | Some m \<Rightarrow>
          (case split_payload (MAX_LARGE_PAYLOAD_SIZE - 1) 57 payload of
             Inl e \<Rightarrow> (Some e, h)
           | Inr chunks \<Rightarrow> send_chunks s m (large_payload2 slot_id) chunks h))"

section \<open>Reading\<close>

text \<open>\<^verbatim>\<open>bytes.hex()\<close>: two lower-case hexadecimal digits per byte, as code points.\<close>

definition hex_digit :: "nat \<Rightarrow> nat" where
  "hex_digit n = (if n < 10 then 48 + n else 87 + n)"

definition hex_byte :: "byte \<Rightarrow> nat list" where
  "hex_byte b = [hex_digit (unat b div 16), hex_digit (unat b mod 16)]"

definition hex :: "byte list \<Rightarrow> nat list" where
  "hex bs = concat (map hex_byte bs)"

text \<open>\<^verbatim>\<open>read_bytes\<close> returns the bytes read, or with \<^verbatim>\<open>to_str=True\<close> their hexadecimal
  text: two functions, one per value of the flag.\<close>

definition read_bytes :: "nat \<Rightarrow> hid \<Rightarrow> byte list \<times> hid" where
  "read_bytes n h = hid_read n h"

definition read_bytes_str :: "nat \<Rightarrow> hid \<Rightarrow> nat list \<times> hid" where
  "read_bytes_str n h = (case hid_read n h of (out, h') \<Rightarrow> (hex out, h'))"

definition read_chunk :: "os \<Rightarrow> hid \<Rightarrow> byte list \<times> hid" where
  "read_chunk s h = read_bytes (MAX_INPUT_REPORT_SIZE s) h"

text \<open>\<^verbatim>\<open>read_string\<close>: \<^verbatim>\<open>decode("ascii")\<close> refuses a byte above 127.\<close>

definition read_string :: "os \<Rightarrow> hid \<Rightarrow> (error + nat list) \<times> hid" where
  "read_string s h =
     (case read_chunk s h of
        (out, h') \<Rightarrow>
          (if list_all (\<lambda>b. unat b < 128) out then (Inr (map unat out), h')
           else (Inl UnicodeDecodeError, h')))"

text \<open>
  The loop \<^verbatim>\<open>x = ''; while x == '': time.sleep(0.5); x = self.read_bytes(64, to_str=True)\<close>
  (lines 450 to 453 of \<^verbatim>\<open>sign\<close>, 685 to 688 of \<^verbatim>\<open>decrypt\<close>). When every coming read
  times out the loop never ends: the result is \<open>None\<close>.
\<close>

function await_first :: "hid \<Rightarrow> (nat list \<times> hid) option" where
  "await_first h =
     (if reads h = [] then None
      else (case read_bytes_str 64 h of
              (x, h') \<Rightarrow> if x = [] then await_first h' else Some (x, h')))"
  by pat_completeness auto
termination
  by (relation "measure (\<lambda>h. length (reads h))")
     (auto simp: read_bytes_str_def hid_read_def split: list.splits)

declare await_first.simps [simp del]

text \<open>
  The loop \<^verbatim>\<open>for _ in range(10): x = self.read_bytes(64, to_str=True); if len(x) == 64: break\<close>
  (lines 460 to 463 and its six repetitions), with the number of rounds left and the value
  \<^verbatim>\<open>x\<close> is bound to. Before the first round \<^verbatim>\<open>x\<close> is unbound; the first round binds it.
\<close>

fun read_part :: "nat \<Rightarrow> nat list \<Rightarrow> hid \<Rightarrow> nat list \<times> hid" where
  "read_part 0 x h = (x, h)"
| "read_part (Suc k) x h =
     (case read_bytes_str 64 h of
        (x', h') \<Rightarrow> if length x' = 64 then (x', h') else read_part k x' h')"

text \<open>Lines 450 to 530 of \<^verbatim>\<open>sign\<close>: the eight parts of the signature.\<close>

definition sign_read :: "hid \<Rightarrow> ((error + nat list) \<times> hid) option" where
  "sign_read h =
     (case await_first h of
        None \<Rightarrow> None
      | Some (ok_sign1, h1) \<Rightarrow>
          (case read_part 10 [] h1 of (ok_sign2, h2) \<Rightarrow>
          (case read_part 10 [] h2 of (ok_sign3, h3) \<Rightarrow>
          (case read_part 10 [] h3 of (ok_sign4, h4) \<Rightarrow>
          (case read_part 10 [] h4 of (ok_sign5, h5) \<Rightarrow>
          (case read_part 10 [] h5 of (ok_sign6, h6) \<Rightarrow>
          (case read_part 10 [] h6 of (ok_sign7, h7) \<Rightarrow>
          (case read_part 10 [] h7 of (ok_sign8, h8) \<Rightarrow>
            (if \<not> truthy (PyStr ok_sign2) then
               Some (Inl (Exception ''failed to read signature from OnlyKey''), h8)
             else
               Some (Inr (ok_sign1 @ ok_sign2 @ ok_sign3 @ ok_sign4 @ ok_sign5 @ ok_sign6
                          @ ok_sign7 @ ok_sign8), h8))))))))))"

text \<open>Lines 685 to 692 of \<^verbatim>\<open>decrypt\<close>: one part, returned as it is.\<close>

definition decrypt_read :: "hid \<Rightarrow> ((error + nat list) \<times> hid) option" where
  "decrypt_read h =
     (case await_first h of
        None \<Rightarrow> None
      | Some (ok_decrypted, h') \<Rightarrow> Some (Inr ok_decrypted, h'))"

text \<open>
  Two notions of the transport model, for stating what the reading loops return.
  \<open>read_at h i\<close> is what the call \<^verbatim>\<open>read_bytes(64, to_str=True)\<close> returns after \<open>i\<close>
  earlier reads from the state \<open>h\<close> (lemma \<open>read_bytes_str_read_at\<close>), and
  \<open>advance n h\<close> is the transport after \<open>n\<close> reads.
\<close>

definition read_at :: "hid \<Rightarrow> nat \<Rightarrow> nat list" where
  "read_at h i = (if i < length (reads h) then hex (take 64 (reads h ! i)) else [])"

definition advance :: "nat \<Rightarrow> hid \<Rightarrow> hid" where
  "advance n h = h\<lparr>reads := drop n (reads h)\<rparr>"

section \<open>The challenge code\<close>

text \<open>\<^verbatim>\<open>ord\<close> takes a \<^verbatim>\<open>str\<close> or \<^verbatim>\<open>bytes\<close> object of length one; anything else, an integer
  included, is a \<^verbatim>\<open>TypeError\<close>.\<close>

fun py_ord :: "pyobj \<Rightarrow> error + int" where
  "py_ord (PyStr [c]) = Inr (int c)"
| "py_ord (PyBytes [b]) = Inr (uint b)"
| "py_ord other = Inl TypeError"

text \<open>Lines 434 to 438 and 669 to 673.\<close>

definition get_button :: "pyobj \<Rightarrow> error + int" where
  "get_button byte =
     ebind (py_ord byte) (\<lambda>ibyte. if ibyte < 6 then Inr 1 else Inr (ibyte mod 5 + 1))"

text \<open>Indexing a \<^verbatim>\<open>bytes\<close> object gives an integer.\<close>

definition bytes_index :: "byte list \<Rightarrow> nat \<Rightarrow> error + pyobj" where
  "bytes_index d i = (if i < length d then Inr (PyInt (uint (d ! i))) else Inl IndexError)"

text \<open>Lines 432 to 440 and 667 to 675, on the digest \<^verbatim>\<open>d\<close>.\<close>

definition challenge :: "byte list \<Rightarrow> error + int \<times> int \<times> int" where
  "challenge d =
     (if length d \<noteq> 32 then Inl AssertionError
      else
        ebind (ebind (bytes_index d 0) get_button) (\<lambda>b1.
        ebind (ebind (bytes_index d 15) get_button) (\<lambda>b2.
        ebind (ebind (bytes_index d 31) get_button) (\<lambda>b3.
          Inr (b1, b2, b3)))))"

text \<open>\<^verbatim>\<open>binascii.hexlify\<close> takes a bytes-like object.\<close>

definition py_hexlify :: "pyobj \<Rightarrow> error + nat list" where
  "py_hexlify x = (case x of PyBytes bs \<Rightarrow> Inr (hex bs) | _ \<Rightarrow> Inl TypeError)"

section \<open>\<^verbatim>\<open>sign\<close> and \<^verbatim>\<open>decrypt\<close>\<close>

text \<open>
  \<^verbatim>\<open>hashlib.sha256\<close> is a parameter, \<^verbatim>\<open>slotnum\<close> the module's global, the argument a
  \<^verbatim>\<open>bytes\<close> object. The loop \<^verbatim>\<open>while not empty\<close> starts from \<^verbatim>\<open>empty = 'a'\<close> and so never
  runs; \<^verbatim>\<open>input()\<close> returns when the user presses enter.
\<close>

definition sign :: "os \<Rightarrow> (byte list \<Rightarrow> byte list) \<Rightarrow> int \<Rightarrow> byte list \<Rightarrow> hid
    \<Rightarrow> ((error + nat list) \<times> hid) option" where
  "sign s sha256 slotnum SignatureHash h =
     (case read_string s h of
        (Inl e, h0) \<Rightarrow> Some (Inl e, h0)
      | (Inr x, h0) \<Rightarrow>
          (case challenge (sha256 SignatureHash) of
             Inl e \<Rightarrow> Some (Inl e, h0)
           | Inr buttons \<Rightarrow>
               (case send_large_message2 s (PyBytes SignatureHash) (Some OKSIGNCHALLENGE)
                       slotnum h0 of
                  (Some e, h1) \<Rightarrow> Some (Inl e, h1)
                | (None, h1) \<Rightarrow>
                    (case sign_read h1 of
                       None \<Rightarrow> None
                     | Some (Inl e, h2) \<Rightarrow> Some (Inl e, h2)
                     | Some (Inr ok_signed, h2) \<Rightarrow>
                         (case py_hexlify (PyStr ok_signed) of
                            Inl e \<Rightarrow> Some (Inl e, h2)
                          | Inr printed \<Rightarrow> Some (Inr ok_signed, h2))))))"

definition decrypt :: "os \<Rightarrow> (byte list \<Rightarrow> byte list) \<Rightarrow> int \<Rightarrow> byte list \<Rightarrow> hid
    \<Rightarrow> ((error + nat list) \<times> hid) option" where
  "decrypt s sha256 slotnum ct h =
     (case read_string s h of
        (Inl e, h0) \<Rightarrow> Some (Inl e, h0)
      | (Inr x, h0) \<Rightarrow>
          (case challenge (sha256 ct) of
             Inl e \<Rightarrow> Some (Inl e, h0)
           | Inr buttons \<Rightarrow>
               (case send_large_message2 s (PyBytes ct) (Some OKDECRYPT) slotnum h0 of
                  (Some e, h1) \<Rightarrow> Some (Inl e, h1)
                | (None, h1) \<Rightarrow> decrypt_read h1)))"

section \<open>Connecting\<close>

record device_info =
  vendor_id :: int
  product_id :: int
  serial_number :: string
  interface_number :: int
  usage_page :: int
  path :: string

definition DEVICE_IDS :: "(int \<times> int) list" where
  "DEVICE_IDS = [(5824, 1158), (7504, 24828)]"

text \<open>What one call of \<^verbatim>\<open>_connect\<close> finds: the list \<^verbatim>\<open>hid.enumerate\<close> returns (\<open>None\<close>
  when it raises) and the devices \<^verbatim>\<open>hid.Device\<close> can open.\<close>

record hid_env =
  enumerate_result :: "device_info list option"
  can_open :: "device_info \<Rightarrow> bool"

text \<open>The object under construction: the handle \<^verbatim>\<open>self._hid\<close> (the path of the device
  opened last), the calls of \<^verbatim>\<open>_connect\<close> made and the calls of \<^verbatim>\<open>time.sleep\<close>, in
  milliseconds.\<close>

record onlykey =
  handle :: "string option"
  connects :: nat
  sleeps :: "nat list"

text \<open>Lines 170 to 186: the loop over the enumerated devices.\<close>

fun connect_devices :: "(device_info \<Rightarrow> bool) \<Rightarrow> device_info list \<Rightarrow> onlykey
    \<Rightarrow> error option \<times> onlykey" where
  "connect_devices opn [] k = (None, k)"
| "connect_devices opn (d # ds) k =
     (if (vendor_id d, product_id d) \<in> set DEVICE_IDS then
        (if serial_number d = ''1000000000'' then
           (if usage_page d = 65451 \<or> interface_number d = 2 then
              (if opn d then connect_devices opn ds (k\<lparr>handle := Some (path d)\<rparr>)
               else (Some OnlyKeyUnavailableException, k))
            else connect_devices opn ds k)
         else
           (if usage_page d = 61904 \<or> interface_number d = 1 then
              (if opn d then connect_devices opn ds (k\<lparr>handle := Some (path d)\<rparr>)
               else (Some OnlyKeyUnavailableException, k))
            else connect_devices opn ds k))
      else connect_devices opn ds k)"

text \<open>\<^verbatim>\<open>_connect\<close>: whatever is raised inside becomes \<^verbatim>\<open>OnlyKeyUnavailableException\<close>.\<close>

definition connect :: "hid_env \<Rightarrow> onlykey \<Rightarrow> error option \<times> onlykey" where
  "connect env k =
     (case enumerate_result env of
        None \<Rightarrow> (Some OnlyKeyUnavailableException, k\<lparr>connects := connects k + 1\<rparr>)
      | Some ds \<Rightarrow> connect_devices (can_open env) ds (k\<lparr>connects := connects k + 1\<rparr>))"

text \<open>
  Lines 155 to 166 of \<^verbatim>\<open>__init__\<close>. \<open>world n\<close> is what the call of \<^verbatim>\<open>_connect\<close> that
  follows \<open>n\<close> earlier calls finds. The name \<^verbatim>\<open>e\<close> of \<^verbatim>\<open>except Exception as e\<close> is unbound
  again when the \<^verbatim>\<open>except\<close> clause ends, so the \<^verbatim>\<open>raise e\<close> after the loop raises
  \<^verbatim>\<open>UnboundLocalError\<close>.
\<close>

function init_loop :: "(nat \<Rightarrow> hid_env) \<Rightarrow> int \<Rightarrow> onlykey \<Rightarrow> error option \<times> onlykey" where
  "init_loop world tries k =
     (if tries > 0 then
        (case connect (world (connects k)) k of
           (None, k') \<Rightarrow> (None, k')
         | (Some e, k') \<Rightarrow> init_loop world (tries - 1) (k'\<lparr>sleeps := sleeps k' @ [1500]\<rparr>))
      else (Some UnboundLocalError, k))"
  by pat_completeness auto
termination
  by (relation "measure (\<lambda>(world, tries, k). nat tries)") auto

declare init_loop.simps [simp del]

definition OnlyKey_init :: "bool \<Rightarrow> (nat \<Rightarrow> hid_env) \<Rightarrow> error option \<times> onlykey" where
  "OnlyKey_init do_connect world =
     (if do_connect then init_loop world 5 \<lparr>handle = None, connects = 0, sleeps = []\<rparr>
      else (None, \<lparr>handle = None, connects = 0, sleeps = []\<rparr>))"

section \<open>Properties of the frame encoder\<close>

lemma pad_replicate: "pad n raw = raw @ replicate (n - length raw) 0"
proof (induction n raw rule: pad.induct)
  case (1 n raw)
  show ?case
  proof (cases "length raw < n")
    case True
    then have "n - length raw = Suc (n - Suc (length raw))" by simp
    with True 1 show ?thesis
      by (subst pad.simps) (simp add: replicate_app_Cons_same)
  next
    case False
    then show ?thesis by (subst pad.simps) simp
  qed
qed

lemma msg_bytes_Some: "msg_bytes (Some m) = Inr [word_of_int (message_value m)]"
  by (cases m) (simp_all add: msg_bytes_def py_bytes_def)

lemma header_bytes: "py_bytes (MESSAGE_HEADER s) = Inr (map word_of_int (MESSAGE_HEADER s))"
  by (cases s) (simp_all add: py_bytes_def MESSAGE_HEADER_def)

text \<open>
  Claim C4. When none of the four optional parts raises and the header, the message tag,
  the slot id, the field tag and the payload together fit in one report, \<^verbatim>\<open>send_message\<close>
  raises nothing and writes exactly one report: it has the platform's report size, starts
  with the header, the tag bytes and the payload in this order, and every byte after
  them is zero.
\<close>

theorem send_message_report:
  assumes "msg_bytes msg = Inr mb" and "slot_bytes slot_id = Inr sb"
    and "field_bytes message_field = Inr fb" and "payload_bytes payload = Inr pb"
    and "length (MESSAGE_HEADER s) + length mb + length sb + length fb + length pb
           \<le> MAX_INPUT_REPORT_SIZE s"
  shows "\<exists>report.
           send_message s payload msg slot_id message_field h
             = (None, h\<lparr>writes := writes h @ [report]\<rparr>)
           \<and> length report = MAX_INPUT_REPORT_SIZE s
           \<and> report = map word_of_int (MESSAGE_HEADER s) @ mb @ sb @ fb @ pb
                @ replicate (MAX_INPUT_REPORT_SIZE s - length (MESSAGE_HEADER s) - length mb
                               - length sb - length fb - length pb) 0"
  using assms
  by (simp add: send_message_def raw_fields_def header_bytes ebind_def hid_write_def
      pad_replicate)

theorem send_message_report_witness:
  "\<exists>report.
     send_message Posix (PyBytes [1, 2, 3]) (Some OKSETSLOT) (Some 7) (Some LABEL)
         \<lparr>writes = [], reads = []\<rparr>
       = (None, \<lparr>writes = [report], reads = []\<rparr>)
     \<and> length report = 64
     \<and> report = [255, 255, 255, 255, 230, 7, 1, 1, 2, 3] @ replicate 54 0"
  using send_message_report [of "Some OKSETSLOT" "[230]" "Some 7" "[7]" "Some LABEL" "[1]"
      "PyBytes [1, 2, 3]" "[1, 2, 3]" Posix "\<lparr>writes = [], reads = []\<rparr>"]
  by (simp add: msg_bytes_def slot_bytes_def field_bytes_def payload_bytes_def py_bytes_def
      MESSAGE_HEADER_def MAX_INPUT_REPORT_SIZE_def)

text \<open>
  Claim C5, as stated, fails: \<^verbatim>\<open>send_message\<close> has no size check. With the four header
  bytes and a payload of 61 bytes it raises nothing and writes all 65 bytes, one more than
  the report size of 64.
\<close>

theorem send_message_unchecked_counterexample:
  "send_message Posix (PyBytes (replicate 61 1)) None None None \<lparr>writes = [], reads = []\<rparr>
     = (None, \<lparr>writes = [[255, 255, 255, 255] @ replicate 61 1], reads = []\<rparr>)
   \<and> length ([255, 255, 255, 255] @ replicate 61 (1 :: byte)) = 65
   \<and> MAX_INPUT_REPORT_SIZE Posix = 64"
  by (simp add: send_message_def raw_fields_def msg_bytes_def slot_bytes_def field_bytes_def
      payload_bytes_def py_bytes_def MESSAGE_HEADER_def MAX_INPUT_REPORT_SIZE_def ebind_def
      hid_write_def pad_replicate)

text \<open>
  Claim C5, amended. When the header, the tags and the payload together are longer than
  the report size, \<^verbatim>\<open>send_message\<close> raises no error: the padding loop does not run and the
  whole over-long sequence is handed to the transport's write as it is.
\<close>

theorem send_message_too_large:
  assumes "raw_fields s payload msg slot_id message_field = Inr raw"
    and "MAX_INPUT_REPORT_SIZE s < length raw"
  shows "send_message s payload msg slot_id message_field h
           = (None, h\<lparr>writes := writes h @ [raw]\<rparr>)"
  using assms by (simp add: send_message_def hid_write_def pad_replicate)

theorem send_message_too_large_witness:
  "send_message NT (PyBytes (replicate 70 9)) (Some OKSETPRIV) None None
       \<lparr>writes = [], reads = []\<rparr>
     = (None, \<lparr>writes = [[0, 255, 255, 255, 255, 239] @ replicate 70 9], reads = []\<rparr>)"
  using send_message_too_large [of NT "PyBytes (replicate 70 9)" "Some OKSETPRIV" None None
      "[0, 255, 255, 255, 255, 239] @ replicate 70 9" "\<lparr>writes = [], reads = []\<rparr>"]
  by (simp add: raw_fields_def msg_bytes_def slot_bytes_def field_bytes_def payload_bytes_def
      py_bytes_def MESSAGE_HEADER_def MAX_INPUT_REPORT_SIZE_def ebind_def)

text \<open>
  Claim C10. \<^verbatim>\<open>send_message\<close> treats a false argument as an absent one: with the slot id
  \<^verbatim>\<open>0\<close>, or with the payload \<^verbatim>\<open>0\<close>, \<^verbatim>\<open>b''\<close>, \<^verbatim>\<open>''\<close> or \<^verbatim>\<open>[]\<close>, it does exactly what
  it does with that argument left out (\<^verbatim>\<open>None\<close>), so the report written is the same.
\<close>

theorem send_message_falsy:
  "send_message s payload msg (Some 0) message_field h
     = send_message s payload msg None message_field h
   \<and> send_message s (PyInt 0) msg slot_id message_field h
     = send_message s PyNone msg slot_id message_field h
   \<and> send_message s (PyBytes []) msg slot_id message_field h
     = send_message s PyNone msg slot_id message_field h
   \<and> send_message s (PyStr []) msg slot_id message_field h
     = send_message s PyNone msg slot_id message_field h
   \<and> send_message s (PyList []) msg slot_id message_field h
     = send_message s PyNone msg slot_id message_field h"
  by (simp add: send_message_def raw_fields_def slot_bytes_def payload_bytes_def)

section \<open>Properties of the chunked senders\<close>

lemma ceil_div_step:
  fixes d w :: nat
  assumes "0 < w" and "0 < d"
  shows "Suc ((d - w + w - 1) div w) = (d + w - 1) div w"
proof -
  from \<open>0 < d\<close> obtain e where d: "d = Suc e" by (cases d) auto
  have l: "(d + w - 1) div w = Suc (e div w)"
    using \<open>0 < w\<close> div_add_self2 [of w e] by (simp add: d)
  have r: "(d - w + w - 1) div w = e div w"
  proof (cases "d \<le> w")
    case True
    then have "e < w" by (simp add: d)
    with True \<open>0 < w\<close> show ?thesis by simp
  next
    case False
    then have "d - w + w - 1 = e" by (simp add: d)
    then show ?thesis by simp
  qed
  show ?thesis by (simp only: l r)
qed

lemma py_range_unfold:
  "0 < step \<Longrightarrow> x < n \<Longrightarrow> py_range x n step = x # py_range (x + step) n step"
  by (subst py_range.simps) simp

lemma py_range_stop: "\<not> x < n \<Longrightarrow> py_range x n step = []"
  by (subst py_range.simps) simp

lemma py_range_length:
  "0 < step \<Longrightarrow> length (py_range x n step) = (n - x + step - 1) div step"
proof (induction x n step rule: py_range.induct)
  case (1 x n step)
  show ?case
  proof (cases "x < n")
    case False
    then have "n - x + step - 1 < step" using 1(2) by simp
    then have "(n - x + step - 1) div step = 0" by (rule div_less)
    moreover have "py_range x n step = []" using False by (rule py_range_stop)
    ultimately show ?thesis by simp
  next
    case True
    have ih: "length (py_range (x + step) n step) = (n - (x + step) + step - 1) div step"
      using 1 True by simp
    have "0 < n - x" using True by simp
    from ceil_div_step [OF 1(2) this]
    have "Suc ((n - (x + step) + step - 1) div step) = (n - x + step - 1) div step"
      by (simp only: diff_diff_left)
    with ih show ?thesis
      by (simp only: py_range_unfold [OF 1(2) True] list.size length_Cons)
  qed
qed

lemma chunks_concat_from:
  "0 < w \<Longrightarrow> concat (map (\<lambda>x. py_slice xs x (x + w)) (py_range a (length xs) w)) = drop a xs"
proof (induction a "length xs" w rule: py_range.induct)
  case (1 a w)
  show ?case
  proof (cases "a < length xs")
    case True
    have "take w (drop a xs) @ drop (a + w) xs = drop a xs"
      by (metis add.commute append_take_drop_id drop_drop)
    with 1 True show ?thesis
      by (simp add: py_range_unfold py_slice_def)
  next
    case False
    then show ?thesis by (simp add: py_range_stop)
  qed
qed

lemma chunks_of_concat: "0 < w \<Longrightarrow> concat (chunks_of w w xs) = xs"
  by (simp add: chunks_of_def chunks_concat_from)

lemma chunks_of_length: "0 < step \<Longrightarrow> length (chunks_of w step xs) = (length xs + step - 1) div step"
  by (simp add: chunks_of_def py_range_length)

lemma chunks_of_bound: "c \<in> set (chunks_of w step xs) \<Longrightarrow> length c \<le> w"
  by (auto simp: chunks_of_def py_slice_def)

lemma raw_fields_bytes:
  "raw_fields s (PyBytes (b # bs)) (Some m) None None
     = Inr (map word_of_int (MESSAGE_HEADER s) @ word_of_int (message_value m) # b # bs)"
  by (simp add: raw_fields_def header_bytes msg_bytes_Some slot_bytes_def field_bytes_def
      payload_bytes_def ebind_def)

lemma send_message_bytes:
  "send_message s (PyBytes (b # bs)) (Some m) None None h
     = (None, h\<lparr>writes := writes h @
          [map word_of_int (MESSAGE_HEADER s) @ word_of_int (message_value m) # b # bs
            @ replicate (MAX_INPUT_REPORT_SIZE s - length (MESSAGE_HEADER s) - 2 - length bs) 0]\<rparr>)"
  by (simp add: send_message_def raw_fields_bytes hid_write_def pad_replicate)

lemma large_payload_bytes:
  "large_payload (PyBytes c) = Inr ((if length c < 58 then of_nat (length c) else 255) # c)"
  by (simp add: large_payload_def ebind_def py_bytes_def append_chunk_def)

lemma large_payload2_bytes:
  "0 \<le> slot_id \<Longrightarrow> slot_id < 256 \<Longrightarrow>
   large_payload2 slot_id (PyBytes c)
     = Inr (word_of_int slot_id # (if length c < 57 then of_nat (length c) else 255) # c)"
  by (simp add: large_payload2_def ebind_def py_bytes_def append_chunk_def)

lemma send_chunks_bytes:
  assumes "\<And>c. build (PyBytes c) = Inr (f c)" and "\<And>c. f c \<noteq> []"
  shows "send_chunks s m build (map PyBytes cs) h
     = (None, h\<lparr>writes := writes h @
          map (\<lambda>c. map word_of_int (MESSAGE_HEADER s) @ word_of_int (message_value m) # f c
                 @ replicate (MAX_INPUT_REPORT_SIZE s - length (MESSAGE_HEADER s) - 1 - length (f c)) 0) cs\<rparr>)"
proof (induction cs arbitrary: h)
  case Nil
  show ?case by simp
next
  case (Cons c cs)
  obtain b bs where f: "f c = b # bs" using assms(2) [of c] by (cases "f c") auto
  show ?case
    by (simp add: assms(1) f send_message_bytes Cons.IH)
qed

lemma send_large_message_bytes:
  "send_large_message s (PyBytes p) (Some m) h
     = (None, h\<lparr>writes := writes h @
          map (\<lambda>c. map word_of_int (MESSAGE_HEADER s)
                 @ [word_of_int (message_value m), if length c < 58 then of_nat (length c) else 255]
                 @ c @ replicate (MAX_INPUT_REPORT_SIZE s - length (MESSAGE_HEADER s) - 2 - length c) 0)
            (chunks_of MAX_LARGE_PAYLOAD_SIZE 58 p)\<rparr>)"
  using send_chunks_bytes [of large_payload
      "\<lambda>c. (if length c < 58 then of_nat (length c) else 255) # c" s m
      "chunks_of MAX_LARGE_PAYLOAD_SIZE 58 p" h]
  by (simp add: send_large_message_def split_payload_def large_payload_bytes)

lemma send_large_message2_bytes:
  assumes "0 \<le> slot_id" and "slot_id < 256"
  shows "send_large_message2 s (PyBytes p) (Some m) slot_id h
     = (None, h\<lparr>writes := writes h @
          map (\<lambda>c. map word_of_int (MESSAGE_HEADER s)
                 @ [word_of_int (message_value m), word_of_int slot_id,
                    if length c < 57 then of_nat (length c) else 255]
                 @ c @ replicate (MAX_INPUT_REPORT_SIZE s - length (MESSAGE_HEADER s) - 3 - length c) 0)
            (chunks_of (MAX_LARGE_PAYLOAD_SIZE - 1) 57 p)\<rparr>)"
  using send_chunks_bytes [of "large_payload2 slot_id"
      "\<lambda>c. word_of_int slot_id # (if length c < 57 then of_nat (length c) else 255) # c" s m
      "chunks_of (MAX_LARGE_PAYLOAD_SIZE - 1) 57 p" h] assms
  by (simp add: send_large_message2_def split_payload_def large_payload2_bytes numeral_3_eq_3)

lemma chunks_from_butlast:
  "0 < w \<Longrightarrow> c \<in> set (butlast (map (\<lambda>x. py_slice xs x (x + w)) (py_range a (length xs) w)))
     \<Longrightarrow> length c = w"
proof (induction a "length xs" w rule: py_range.induct)
  case (1 a w)
  show ?case
  proof (cases "a < length xs")
    case False
    with 1(3) show ?thesis by (simp add: py_range_stop)
  next
    case True
    note u = py_range_unfold [OF 1(2) True]
    show ?thesis
    proof (cases "a + w < length xs")
      case False
      then have "py_range (a + w) (length xs) w = []" by (simp add: py_range_stop)
      with 1(3) show ?thesis by (simp add: u)
    next
      case more: True
      then have ne: "py_range (a + w) (length xs) w \<noteq> []"
        using 1(2) by (simp add: py_range_unfold)
      from 1(3) have "c = py_slice xs a (a + w) \<or>
          c \<in> set (butlast (map (\<lambda>x. py_slice xs x (x + w)) (py_range (a + w) (length xs) w)))"
        by (simp add: u ne)
      then show ?thesis
      proof
        assume "c = py_slice xs a (a + w)"
        with more show ?thesis by (simp add: py_slice_def)
      next
        assume "c \<in> set (butlast (map (\<lambda>x. py_slice xs x (x + w)) (py_range (a + w) (length xs) w)))"
        with 1(1) [OF _ 1(2)] True 1(2) show ?thesis by simp
      qed
    qed
  qed
qed

lemma chunks_of_butlast: "0 < w \<Longrightarrow> c \<in> set (butlast (chunks_of w w xs)) \<Longrightarrow> length c = w"
  by (simp add: chunks_of_def chunks_from_butlast)

text \<open>A list of integers that \<^verbatim>\<open>bytes\<close> accepts is sent exactly as the \<^verbatim>\<open>bytes\<close>
  object with the same elements.\<close>

lemma py_bytes_Inr: "py_bytes xs = Inr p \<Longrightarrow> list_all (\<lambda>x. 0 \<le> x \<and> x < 256) xs \<and> p = map word_of_int xs"
  by (auto simp: py_bytes_def split: if_splits)

lemma chunks_of_map: "chunks_of w st (map f xs) = map (map f) (chunks_of w st xs)"
  by (simp add: chunks_of_def py_slice_def take_map drop_map)

lemma chunks_of_subset: "c \<in> set (chunks_of w st xs) \<Longrightarrow> set c \<subseteq> set xs"
  by (auto simp: chunks_of_def py_slice_def dest: in_set_takeD in_set_dropD)

lemma large_payload_list:
  "list_all (\<lambda>x. 0 \<le> x \<and> x < 256) c \<Longrightarrow>
   large_payload (PyList c) = large_payload (PyBytes (map word_of_int c))"
  by (simp add: large_payload_def ebind_def py_bytes_def append_chunk_def)

lemma large_payload2_list:
  "list_all (\<lambda>x. 0 \<le> x \<and> x < 256) c \<Longrightarrow>
   large_payload2 slot_id (PyList c) = large_payload2 slot_id (PyBytes (map word_of_int c))"
  by (simp add: large_payload2_def ebind_def py_bytes_def append_chunk_def)

lemma send_chunks_cong:
  "(\<And>c. c \<in> set cs \<Longrightarrow> build (g c) = build (g' c)) \<Longrightarrow>
   send_chunks s m build (map g cs) h = send_chunks s m build (map g' cs) h"
  by (induction cs arbitrary: h) (auto split: sum.splits prod.splits option.splits)

lemma send_large_message_list:
  assumes "py_bytes xs = Inr p"
  shows "send_large_message s (PyList xs) msg h = send_large_message s (PyBytes p) msg h"
proof (cases msg)
  case None
  then show ?thesis by (simp add: send_large_message_def)
next
  case (Some m)
  from py_bytes_Inr [OF assms]
  have ok: "list_all (\<lambda>x. 0 \<le> x \<and> x < 256) xs" and p: "p = map word_of_int xs" by simp_all
  have "send_chunks s m large_payload (map PyList (chunks_of MAX_LARGE_PAYLOAD_SIZE 58 xs)) h
      = send_chunks s m large_payload
          (map (\<lambda>c. PyBytes (map word_of_int c)) (chunks_of MAX_LARGE_PAYLOAD_SIZE 58 xs)) h"
  proof (rule send_chunks_cong)
    fix c assume "c \<in> set (chunks_of MAX_LARGE_PAYLOAD_SIZE 58 xs)"
    from chunks_of_subset [OF this] ok have "list_all (\<lambda>x. 0 \<le> x \<and> x < 256) c"
      by (auto simp: list_all_iff)
    then show "large_payload (PyList c) = large_payload (PyBytes (map word_of_int c))"
      by (rule large_payload_list)
  qed
  then show ?thesis
    by (simp add: send_large_message_def split_payload_def Some p chunks_of_map comp_def)
qed

lemma send_large_message2_list:
  assumes "py_bytes xs = Inr p"
  shows "send_large_message2 s (PyList xs) msg slot_id h
           = send_large_message2 s (PyBytes p) msg slot_id h"
proof (cases msg)
  case None
  then show ?thesis by (simp add: send_large_message2_def)
next
  case (Some m)
  from py_bytes_Inr [OF assms]
  have ok: "list_all (\<lambda>x. 0 \<le> x \<and> x < 256) xs" and p: "p = map word_of_int xs" by simp_all
  have "send_chunks s m (large_payload2 slot_id)
          (map PyList (chunks_of (MAX_LARGE_PAYLOAD_SIZE - 1) 57 xs)) h
      = send_chunks s m (large_payload2 slot_id)
          (map (\<lambda>c. PyBytes (map word_of_int c)) (chunks_of (MAX_LARGE_PAYLOAD_SIZE - 1) 57 xs)) h"
  proof (rule send_chunks_cong)
    fix c assume "c \<in> set (chunks_of (MAX_LARGE_PAYLOAD_SIZE - 1) 57 xs)"
    from chunks_of_subset [OF this] ok have "list_all (\<lambda>x. 0 \<le> x \<and> x < 256) c"
      by (auto simp: list_all_iff)
    then show "large_payload2 slot_id (PyList c)
                 = large_payload2 slot_id (PyBytes (map word_of_int c))"
      by (rule large_payload2_list)
  qed
  then show ?thesis
    by (simp add: send_large_message2_def split_payload_def Some p chunks_of_map comp_def)
qed

text \<open>
  Claim C2. For every payload that is a \<^verbatim>\<open>bytes\<close> object \<open>p\<close>, or a list of integers with
  the bytes \<open>p\<close>, of any length (so also for every one longer than a report's capacity),
  both senders raise nothing and write one report per chunk, in order; each report is
  the header, the message tag, the marker byte or bytes, the chunk's data and zero
  padding. The data of the chunks, concatenated in the order of the reports, is \<open>p\<close>, and
  there are \<open>\<lceil>length p / 58\<rceil>\<close> chunks for \<^verbatim>\<open>send_large_message\<close> and \<open>\<lceil>length p / 57\<rceil>\<close>
  for \<^verbatim>\<open>send_large_message2\<close>. The slot id of \<^verbatim>\<open>send_large_message2\<close> has to be a byte:
  \<^verbatim>\<open>bytes([slot_id, ..])\<close> raises otherwise.
\<close>

theorem chunked_roundtrip:
  assumes "payload = PyBytes p \<or> (\<exists>xs. payload = PyList xs \<and> py_bytes xs = Inr p)"
    and "0 \<le> slot_id" and "slot_id < 256"
  shows "(\<exists>chunks.
            send_large_message s payload (Some m) h
              = (None, h\<lparr>writes := writes h @
                   map (\<lambda>c. map word_of_int (MESSAGE_HEADER s)
                          @ [word_of_int (message_value m),
                             if length c < 58 then of_nat (length c) else 255]
                          @ c
                          @ replicate (MAX_INPUT_REPORT_SIZE s - length (MESSAGE_HEADER s) - 2
                                         - length c) 0) chunks\<rparr>)
            \<and> concat chunks = p
            \<and> length chunks = (length p + 57) div 58)
       \<and> (\<exists>chunks.
            send_large_message2 s payload (Some m) slot_id h
              = (None, h\<lparr>writes := writes h @
                   map (\<lambda>c. map word_of_int (MESSAGE_HEADER s)
                          @ [word_of_int (message_value m), word_of_int slot_id,
                             if length c < 57 then of_nat (length c) else 255]
                          @ c
                          @ replicate (MAX_INPUT_REPORT_SIZE s - length (MESSAGE_HEADER s) - 3
                                         - length c) 0) chunks\<rparr>)
            \<and> concat chunks = p
            \<and> length chunks = (length p + 56) div 57)"
proof -
  from assms(1)
  have e1: "send_large_message s payload (Some m) h = send_large_message s (PyBytes p) (Some m) h"
    by (auto simp: send_large_message_list)
  from assms(1)
  have e2: "send_large_message2 s payload (Some m) slot_id h
              = send_large_message2 s (PyBytes p) (Some m) slot_id h"
    by (auto simp: send_large_message2_list)
  show ?thesis
    unfolding e1 e2
  proof (intro conjI)
  show "\<exists>chunks.
            send_large_message s (PyBytes p) (Some m) h
              = (None, h\<lparr>writes := writes h @
                   map (\<lambda>c. map word_of_int (MESSAGE_HEADER s)
                          @ [word_of_int (message_value m),
                             if length c < 58 then of_nat (length c) else 255]
                          @ c
                          @ replicate (MAX_INPUT_REPORT_SIZE s - length (MESSAGE_HEADER s) - 2
                                         - length c) 0) chunks\<rparr>)
            \<and> concat chunks = p
            \<and> length chunks = (length p + 57) div 58"
    by (rule exI [of _ "chunks_of MAX_LARGE_PAYLOAD_SIZE 58 p"])
       (simp add: send_large_message_bytes chunks_of_length,
        simp add: MAX_LARGE_PAYLOAD_SIZE_def chunks_of_concat)
  show "\<exists>chunks.
            send_large_message2 s (PyBytes p) (Some m) slot_id h
              = (None, h\<lparr>writes := writes h @
                   map (\<lambda>c. map word_of_int (MESSAGE_HEADER s)
                          @ [word_of_int (message_value m), word_of_int slot_id,
                             if length c < 57 then of_nat (length c) else 255]
                          @ c
                          @ replicate (MAX_INPUT_REPORT_SIZE s - length (MESSAGE_HEADER s) - 3
                                         - length c) 0) chunks\<rparr>)
            \<and> concat chunks = p
            \<and> length chunks = (length p + 56) div 57"
    by (rule exI [of _ "chunks_of (MAX_LARGE_PAYLOAD_SIZE - 1) 57 p"])
       (simp add: send_large_message2_bytes [OF assms(2,3)] chunks_of_length,
        simp add: MAX_LARGE_PAYLOAD_SIZE_def chunks_of_concat)
qed
qed

lemma chunks_of_58_58: "chunks_of 58 58 (replicate 58 (x::byte)) = [replicate 58 x]"
  by (simp add: chunks_of_def py_range_unfold py_range_stop py_slice_def)

lemma chunks_of_57_57: "chunks_of 57 57 (replicate 57 (x::byte)) = [replicate 57 x]"
  by (simp add: chunks_of_def py_range_unfold py_range_stop py_slice_def)

text \<open>
  Claim C1, at a payload whose length is a multiple of the chunk size. The only, hence
  last, chunk of a payload of 58 bytes is written by \<^verbatim>\<open>send_large_message\<close> with the marker
  255, not with its length 58; so is the only chunk of a payload of 57 bytes by
  \<^verbatim>\<open>send_large_message2\<close>. The source comments the marker 255 as "it's not the last
  payload". Every chunk before the last is full (\<open>chunks_of_butlast\<close>) and so carries 255,
  and a last chunk shorter than the chunk size carries its length
  (\<open>send_large_message_bytes\<close>, \<open>send_large_message2_bytes\<close>).
\<close>

theorem full_last_chunk_marker:
  "send_large_message Posix (PyBytes (replicate 58 65)) (Some OKSIGNCHALLENGE)
       \<lparr>writes = [], reads = []\<rparr>
     = (None, \<lparr>writes = [[255, 255, 255, 255, 237, 255] @ replicate 58 65], reads = []\<rparr>)
   \<and> send_large_message2 Posix (PyBytes (replicate 57 65)) (Some OKSIGNCHALLENGE) 101
       \<lparr>writes = [], reads = []\<rparr>
     = (None, \<lparr>writes = [[255, 255, 255, 255, 237, 101, 255] @ replicate 57 65], reads = []\<rparr>)"
  by (simp add: send_large_message_bytes send_large_message2_bytes MAX_LARGE_PAYLOAD_SIZE_def
      chunks_of_58_58 chunks_of_57_57 MESSAGE_HEADER_def MAX_INPUT_REPORT_SIZE_def)


theorem chunked_roundtrip_witness:
  "(0::int) \<le> 101 \<and> (101::int) < 256
   \<and> (\<exists>chunks.
        send_large_message Posix (PyBytes (replicate 60 7)) (Some OKDECRYPT)
            \<lparr>writes = [], reads = []\<rparr>
          = (None, \<lparr>writes =
               map (\<lambda>c. [255, 255, 255, 255]
                      @ [240, if length c < 58 then of_nat (length c) else 255]
                      @ c @ replicate (58 - length c) 0) chunks, reads = []\<rparr>)
        \<and> concat chunks = replicate 60 7
        \<and> length chunks = 2)
   \<and> (\<exists>chunks.
        send_large_message2 Posix (PyBytes (replicate 60 7)) (Some OKDECRYPT) 101
            \<lparr>writes = [], reads = []\<rparr>
          = (None, \<lparr>writes =
               map (\<lambda>c. [255, 255, 255, 255]
                      @ [240, 101, if length c < 57 then of_nat (length c) else 255]
                      @ c @ replicate (57 - length c) 0) chunks, reads = []\<rparr>)
        \<and> concat chunks = replicate 60 7
        \<and> length chunks = 2)"
  using chunked_roundtrip [of "PyBytes (replicate 60 7)" "replicate 60 7" 101 Posix OKDECRYPT
      "\<lparr>writes = [], reads = []\<rparr>"]
  by (simp add: MESSAGE_HEADER_def MAX_INPUT_REPORT_SIZE_def)

text \<open>
  Claim C3, as stated, fails: \<^verbatim>\<open>send_large_message\<close>, with its one marker byte, writes a
  chunk of 58 data bytes, more than \<^verbatim>\<open>MAX_LARGE_PAYLOAD_SIZE - 1\<close>; \<^verbatim>\<open>send_large_message2\<close>,
  with its two, writes a chunk of 57 data bytes, more than \<^verbatim>\<open>MAX_LARGE_PAYLOAD_SIZE - 2\<close>.
\<close>

theorem chunk_capacity_counterexample:
  "send_large_message Posix (PyBytes (replicate 58 7)) (Some OKSETPRIV)
       \<lparr>writes = [], reads = []\<rparr>
     = (None, \<lparr>writes = [[255, 255, 255, 255, 239, 255] @ replicate 58 7], reads = []\<rparr>)
   \<and> \<not> length (replicate 58 (7 :: byte)) \<le> MAX_LARGE_PAYLOAD_SIZE - 1
   \<and> send_large_message2 Posix (PyBytes (replicate 57 7)) (Some OKSETPRIV) 101
       \<lparr>writes = [], reads = []\<rparr>
     = (None, \<lparr>writes = [[255, 255, 255, 255, 239, 101, 255] @ replicate 57 7], reads = []\<rparr>)
   \<and> \<not> length (replicate 57 (7 :: byte)) \<le> MAX_LARGE_PAYLOAD_SIZE - 2"
  by (simp add: send_large_message_bytes send_large_message2_bytes MAX_LARGE_PAYLOAD_SIZE_def
      chunks_of_58_58 chunks_of_57_57 MESSAGE_HEADER_def MAX_INPUT_REPORT_SIZE_def)

text \<open>
  Claim C3, amended. \<^verbatim>\<open>MAX_LARGE_PAYLOAD_SIZE\<close> already leaves room for one marker byte
  (line 29), so a chunk has at most \<^verbatim>\<open>MAX_LARGE_PAYLOAD_SIZE - (k - 1)\<close> data bytes when the
  sender writes \<open>k\<close> marker bytes: at most \<^verbatim>\<open>MAX_LARGE_PAYLOAD_SIZE\<close>, 58, for
  \<^verbatim>\<open>send_large_message\<close> and at most \<^verbatim>\<open>MAX_LARGE_PAYLOAD_SIZE - 1\<close>, 57, for
  \<^verbatim>\<open>send_large_message2\<close>.
\<close>

theorem chunk_size_bound:
  assumes "payload = PyBytes p \<or> (\<exists>xs. payload = PyList xs \<and> py_bytes xs = Inr p)"
    and "0 \<le> slot_id" and "slot_id < 256"
  shows "(\<exists>chunks.
            send_large_message s payload (Some m) h
              = (None, h\<lparr>writes := writes h @
                   map (\<lambda>c. map word_of_int (MESSAGE_HEADER s)
                          @ [word_of_int (message_value m),
                             if length c < 58 then of_nat (length c) else 255]
                          @ c
                          @ replicate (MAX_INPUT_REPORT_SIZE s - length (MESSAGE_HEADER s) - 2
                                         - length c) 0) chunks\<rparr>)
            \<and> concat chunks = p
            \<and> list_all (\<lambda>c. length c \<le> MAX_LARGE_PAYLOAD_SIZE) chunks)
       \<and> (\<exists>chunks.
            send_large_message2 s payload (Some m) slot_id h
              = (None, h\<lparr>writes := writes h @
                   map (\<lambda>c. map word_of_int (MESSAGE_HEADER s)
                          @ [word_of_int (message_value m), word_of_int slot_id,
                             if length c < 57 then of_nat (length c) else 255]
                          @ c
                          @ replicate (MAX_INPUT_REPORT_SIZE s - length (MESSAGE_HEADER s) - 3
                                         - length c) 0) chunks\<rparr>)
            \<and> concat chunks = p
            \<and> list_all (\<lambda>c. length c \<le> MAX_LARGE_PAYLOAD_SIZE - 1) chunks)"
proof -
  from assms(1)
  have e1: "send_large_message s payload (Some m) h = send_large_message s (PyBytes p) (Some m) h"
    by (auto simp: send_large_message_list)
  from assms(1)
  have e2: "send_large_message2 s payload (Some m) slot_id h
              = send_large_message2 s (PyBytes p) (Some m) slot_id h"
    by (auto simp: send_large_message2_list)
  show ?thesis
    unfolding e1 e2
  proof (intro conjI)
  have b1: "list_all (\<lambda>c. length c \<le> MAX_LARGE_PAYLOAD_SIZE) (chunks_of MAX_LARGE_PAYLOAD_SIZE 58 p)"
    by (simp add: list_all_iff chunks_of_bound)
  have b2: "list_all (\<lambda>c. length c \<le> MAX_LARGE_PAYLOAD_SIZE - 1)
              (chunks_of (MAX_LARGE_PAYLOAD_SIZE - 1) 57 p)"
    by (simp add: list_all_iff chunks_of_bound)
  show "\<exists>chunks.
            send_large_message s (PyBytes p) (Some m) h
              = (None, h\<lparr>writes := writes h @
                   map (\<lambda>c. map word_of_int (MESSAGE_HEADER s)
                          @ [word_of_int (message_value m),
                             if length c < 58 then of_nat (length c) else 255]
                          @ c
                          @ replicate (MAX_INPUT_REPORT_SIZE s - length (MESSAGE_HEADER s) - 2
                                         - length c) 0) chunks\<rparr>)
            \<and> concat chunks = p
            \<and> list_all (\<lambda>c. length c \<le> MAX_LARGE_PAYLOAD_SIZE) chunks"
    using b1
    by (intro exI [of _ "chunks_of MAX_LARGE_PAYLOAD_SIZE 58 p"])
       (simp add: send_large_message_bytes, simp add: MAX_LARGE_PAYLOAD_SIZE_def chunks_of_concat)
  show "\<exists>chunks.
            send_large_message2 s (PyBytes p) (Some m) slot_id h
              = (None, h\<lparr>writes := writes h @
                   map (\<lambda>c. map word_of_int (MESSAGE_HEADER s)
                          @ [word_of_int (message_value m), word_of_int slot_id,
                             if length c < 57 then of_nat (length c) else 255]
                          @ c
                          @ replicate (MAX_INPUT_REPORT_SIZE s - length (MESSAGE_HEADER s) - 3
                                         - length c) 0) chunks\<rparr>)
            \<and> concat chunks = p
            \<and> list_all (\<lambda>c. length c \<le> MAX_LARGE_PAYLOAD_SIZE - 1) chunks"
    using b2
    by (intro exI [of _ "chunks_of (MAX_LARGE_PAYLOAD_SIZE - 1) 57 p"])
       (simp add: send_large_message2_bytes [OF assms(2,3)], simp add: MAX_LARGE_PAYLOAD_SIZE_def chunks_of_concat)
qed
qed

theorem chunk_size_bound_witness:
  "(0::int) \<le> 5 \<and> (5::int) < 256
   \<and> (\<exists>chunks.
        send_large_message NT (PyList (replicate 100 3)) (Some OKSIGNCHALLENGE)
            \<lparr>writes = [], reads = []\<rparr>
          = (None, \<lparr>writes =
               map (\<lambda>c. [0, 255, 255, 255, 255]
                      @ [237, if length c < 58 then of_nat (length c) else 255]
                      @ c @ replicate (58 - length c) 0) chunks, reads = []\<rparr>)
        \<and> concat chunks = replicate 100 3
        \<and> list_all (\<lambda>c. length c \<le> 58) chunks)
   \<and> (\<exists>chunks.
        send_large_message2 NT (PyList (replicate 100 3)) (Some OKSIGNCHALLENGE) 5
            \<lparr>writes = [], reads = []\<rparr>
          = (None, \<lparr>writes =
               map (\<lambda>c. [0, 255, 255, 255, 255]
                      @ [237, 5, if length c < 57 then of_nat (length c) else 255]
                      @ c @ replicate (57 - length c) 0) chunks, reads = []\<rparr>)
        \<and> concat chunks = replicate 100 3
        \<and> list_all (\<lambda>c. length c \<le> 57) chunks)"
proof -
  have b: "py_bytes (replicate 100 3) = Inr (replicate 100 3)"
    by (simp add: py_bytes_def list_all_iff)
  from b chunk_size_bound [of "PyList (replicate 100 3)" "replicate 100 3" 5 NT
      OKSIGNCHALLENGE "\<lparr>writes = [], reads = []\<rparr>"]
  show ?thesis
    by (simp add: MESSAGE_HEADER_def MAX_INPUT_REPORT_SIZE_def MAX_LARGE_PAYLOAD_SIZE_def)
qed

section \<open>Properties of the slot table\<close>

lemma slots_name_keys: "map fst SLOTS_NAME_table = [1..12] @ [25..60]"
  unfolding SLOTS_NAME_table_def by (simp add: upto.simps)

lemma slots_name_dom:
  "SLOTS_NAME num = None \<longleftrightarrow> \<not> ((1 \<le> num \<and> num \<le> 12) \<or> (25 \<le> num \<and> num \<le> 60))"
proof -
  have "SLOTS_NAME num = None \<longleftrightarrow> num \<notin> set (map fst SLOTS_NAME_table)"
    by (simp only: SLOTS_NAME_def map_of_eq_None_iff set_map)
  also have "\<dots> \<longleftrightarrow> num \<notin> set ([1..12] @ [25..60])"
    by (simp only: slots_name_keys)
  also have "\<dots> \<longleftrightarrow> \<not> ((1 \<le> num \<and> num \<le> 12) \<or> (25 \<le> num \<and> num \<le> 60))"
    by (simp only: set_append set_upto Un_iff atLeastAtMost_iff)
  finally show ?thesis .
qed

text \<open>
  Claim C9, as stated, fails in its last part: constructing a slot with the number 61
  does fail, but with the \<^verbatim>\<open>KeyError\<close> of the dictionary subscript. The module defines one
  exception class, \<^verbatim>\<open>OnlyKeyUnavailableException\<close>, and no error for an unknown slot.
\<close>

theorem slot_unknown_counterexample:
  "Slot_init 61 [] = Inl KeyError \<and> KeyError \<notin> set module_exceptions"
  by (simp add: Slot_init_def SLOTS_NAME_def SLOTS_NAME_table_def module_exceptions_def)

text \<open>
  Claim C9, amended. The slot number 29 gets the name "ECC Key 1" and the slot number 7
  the name "1b"; constructing a slot raises \<^verbatim>\<open>KeyError\<close> exactly for the numbers that are
  not keys of the table, which are the numbers below 1, from 13 to 24 and above 60.
\<close>

theorem slot_lookup:
  "Slot_init 29 lbl = Inr \<lparr>number = 29, label = lbl, name = ''ECC Key 1''\<rparr>
   \<and> Slot_init 7 lbl = Inr \<lparr>number = 7, label = lbl, name = ''1b''\<rparr>
   \<and> (Slot_init num lbl = Inl KeyError \<longleftrightarrow> SLOTS_NAME num = None)
   \<and> (SLOTS_NAME num = None \<longleftrightarrow> num < 1 \<or> (12 < num \<and> num < 25) \<or> 60 < num)"
proof (intro conjI)
  show "Slot_init 29 lbl = Inr \<lparr>number = 29, label = lbl, name = ''ECC Key 1''\<rparr>"
    by (simp add: Slot_init_def SLOTS_NAME_def SLOTS_NAME_table_def)
  show "Slot_init 7 lbl = Inr \<lparr>number = 7, label = lbl, name = ''1b''\<rparr>"
    by (simp add: Slot_init_def SLOTS_NAME_def SLOTS_NAME_table_def)
  show "Slot_init num lbl = Inl KeyError \<longleftrightarrow> SLOTS_NAME num = None"
    by (simp add: Slot_init_def split: option.split)
  show "SLOTS_NAME num = None \<longleftrightarrow> num < 1 \<or> (12 < num \<and> num < 25) \<or> 60 < num"
    unfolding slots_name_dom by auto
qed

theorem slot_lookup_witness:
  "Slot_init 29 ''x'' = Inr \<lparr>number = 29, label = ''x'', name = ''ECC Key 1''\<rparr>
   \<and> Slot_init 7 ''x'' = Inr \<lparr>number = 7, label = ''x'', name = ''1b''\<rparr>
   \<and> SLOTS_NAME 61 = None \<and> Slot_init 61 ''x'' = Inl KeyError"
  using slot_lookup [of "''x''" 61] by simp

section \<open>Properties of the challenge code\<close>

text \<open>
  On an object \<^verbatim>\<open>ord\<close> accepts, a \<^verbatim>\<open>bytes\<close> object of length one, \<^verbatim>\<open>get_button\<close> computes
  what the specification says, a button from 1 to 5. The functions \<^verbatim>\<open>sign\<close> and
  \<^verbatim>\<open>decrypt\<close> call it on \<^verbatim>\<open>d[0]\<close>, \<^verbatim>\<open>d[15]\<close> and \<^verbatim>\<open>d[31]\<close>, which are integers.
\<close>

lemma get_button_bytes1:
  "get_button (PyBytes [b]) = Inr (if uint b < 6 then 1 else uint b mod 5 + 1)"
  by (simp add: get_button_def ebind_def)

lemma get_button_range:
  "get_button (PyBytes [b]) = Inr n \<Longrightarrow> 1 \<le> n \<and> n \<le> 5"
  by (auto simp: get_button_bytes1 split: if_splits)

lemma get_button_int: "get_button (PyInt i) = Inl TypeError"
  by (simp add: get_button_def ebind_def)

lemma challenge_raises: "challenge d = Inl AssertionError \<or> challenge d = Inl TypeError"
  by (simp add: challenge_def bytes_index_def ebind_def get_button_int)

lemma sign_raises: "sign s sha256 slotnum SignatureHash h \<noteq> Some (Inr r, h')"
  using challenge_raises [of "sha256 SignatureHash"]
  by (auto simp: sign_def py_hexlify_def split: prod.splits sum.splits option.splits)

lemma decrypt_raises: "decrypt s sha256 slotnum ct h \<noteq> Some (Inr r, h')"
  using challenge_raises [of "sha256 ct"]
  by (auto simp: decrypt_def split: prod.splits sum.splits option.splits)

text \<open>
  Claim C7, at the empty payload, whose SHA-256 digest is the list below (bytes 227, 36
  and 85 at the indices 0, 15 and 31). The derivation of the challenge raises
  \<^verbatim>\<open>TypeError\<close> at \<^verbatim>\<open>ord(d[0])\<close> instead of giving three buttons, and so do \<^verbatim>\<open>sign\<close> and
  \<^verbatim>\<open>decrypt\<close>, before anything is written to the device. By \<open>challenge_raises\<close> this
  happens for every payload.
\<close>

theorem challenge_type_error:
  "challenge [227, 176, 196, 66, 152, 252, 28, 20, 154, 251, 244, 200, 153, 111, 185, 36,
              39, 174, 65, 228, 100, 155, 147, 76, 164, 149, 153, 27, 120, 82, 184, 85]
     = Inl TypeError
   \<and> sign Posix
       (\<lambda>x. [227, 176, 196, 66, 152, 252, 28, 20, 154, 251, 244, 200, 153, 111, 185, 36,
              39, 174, 65, 228, 100, 155, 147, 76, 164, 149, 153, 27, 120, 82, 184, 85])
       101 [] \<lparr>writes = [], reads = []\<rparr>
     = Some (Inl TypeError, \<lparr>writes = [], reads = []\<rparr>)
   \<and> decrypt Posix
       (\<lambda>x. [227, 176, 196, 66, 152, 252, 28, 20, 154, 251, 244, 200, 153, 111, 185, 36,
              39, 174, 65, 228, 100, 155, 147, 76, 164, 149, 153, 27, 120, 82, 184, 85])
       101 [] \<lparr>writes = [], reads = []\<rparr>
     = Some (Inl TypeError, \<lparr>writes = [], reads = []\<rparr>)"
  by (simp add: sign_def decrypt_def read_string_def read_chunk_def read_bytes_def hid_read_def
      challenge_def bytes_index_def ebind_def get_button_int)

section \<open>Properties of connecting\<close>

lemma connect_devices_frame:
  "connect_devices opn ds k = (r, k') \<Longrightarrow> connects k' = connects k \<and> sleeps k' = sleeps k"
  by (induction opn ds k rule: connect_devices.induct) (auto split: if_splits)

lemma connect_counts:
  "connect env k = (r, k') \<Longrightarrow> connects k' = Suc (connects k) \<and> sleeps k' = sleeps k"
  by (auto simp: connect_def split: option.splits dest: connect_devices_frame)

lemma init_loop_all_fail:
  "(\<And>n k. fst (connect (world n) k) \<noteq> None) \<Longrightarrow> 0 \<le> tries \<Longrightarrow>
     \<exists>k'. init_loop world tries k = (Some UnboundLocalError, k')
       \<and> connects k' = connects k + nat tries
       \<and> sleeps k' = sleeps k @ replicate (nat tries) 1500"
proof (induction world tries k rule: init_loop.induct)
  case (1 world tries k)
  show ?case
  proof (cases "tries > 0")
    case False
    with 1(3) show ?thesis by (subst init_loop.simps) simp
  next
    case True
    obtain r k1 where c: "connect (world (connects k)) k = (r, k1)"
      by (cases "connect (world (connects k)) k")
    from 1(2) [of "connects k" k] c have "r \<noteq> None" by simp
    then obtain e where r: "r = Some e" by (cases r) auto
    from connect_counts [OF c]
    have cnt: "connects k1 = Suc (connects k)" "sleeps k1 = sleeps k" by simp_all
    have "0 \<le> tries - 1" using True by simp
    from 1(1) [OF True c [unfolded r, symmetric] refl 1(2) this]
    obtain k' where ih:
      "init_loop world (tries - 1) (k1\<lparr>sleeps := sleeps k1 @ [1500]\<rparr>)
         = (Some UnboundLocalError, k')"
      "connects k' = connects (k1\<lparr>sleeps := sleeps k1 @ [1500]\<rparr>) + nat (tries - 1)"
      "sleeps k' = sleeps (k1\<lparr>sleeps := sleeps k1 @ [1500]\<rparr>) @ replicate (nat (tries - 1)) 1500"
      by blast
    have n: "nat tries = Suc (nat (tries - 1))" using True by simp
    have "init_loop world tries k = (Some UnboundLocalError, k')"
      using True c r ih(1) by (subst init_loop.simps) simp
    moreover have "connects k' = connects k + nat tries" using ih(2) cnt n by simp
    moreover have "sleeps k' = sleeps k @ replicate (nat tries) 1500"
      using ih(3) cnt n by (simp add: replicate_append_same)
    ultimately show ?thesis by blast
  qed
qed

lemma connect_devices_no_match:
  "list_all (\<lambda>d. (vendor_id d, product_id d) \<notin> set DEVICE_IDS) ds \<Longrightarrow>
   connect_devices opn ds k = (None, k)"
  by (induction ds) simp_all

lemma init_no_match:
  assumes "enumerate_result (world 0) = Some ds"
    and "list_all (\<lambda>d. (vendor_id d, product_id d) \<notin> set DEVICE_IDS) ds"
  shows "OnlyKey_init True world = (None, \<lparr>handle = None, connects = 1, sleeps = []\<rparr>)"
  using assms
  by (simp add: OnlyKey_init_def init_loop.simps connect_def connect_devices_no_match)

text \<open>
  Claim C8, at two worlds without an OnlyKey. When \<^verbatim>\<open>hid.enumerate\<close> lists only another
  device, \<^verbatim>\<open>_connect\<close> raises nothing: the constructor returns after one attempt, without
  a handle, a retry or a delay (\<open>init_no_match\<close> for every such list). When
  \<^verbatim>\<open>hid.enumerate\<close> itself fails every time, the constructor makes five attempts, sleeps
  1.5 seconds after each of them and then raises \<^verbatim>\<open>UnboundLocalError\<close>, not
  \<^verbatim>\<open>OnlyKeyUnavailableException\<close> (\<open>init_loop_all_fail\<close> for every world in which all
  attempts fail).
\<close>

theorem init_no_device:
  "OnlyKey_init True
      (\<lambda>n. \<lparr>enumerate_result = Some [\<lparr>vendor_id = 1133, product_id = 49948,
                serial_number = [], interface_number = 0, usage_page = 1,
                path = ''/dev/hidraw0''\<rparr>],
            can_open = (\<lambda>d. True)\<rparr>)
     = (None, \<lparr>handle = None, connects = 1, sleeps = []\<rparr>)
   \<and> OnlyKey_init True (\<lambda>n. \<lparr>enumerate_result = None, can_open = (\<lambda>d. True)\<rparr>)
     = (Some UnboundLocalError,
        \<lparr>handle = None, connects = 5, sleeps = [1500, 1500, 1500, 1500, 1500]\<rparr>)"
  by (simp add: OnlyKey_init_def init_loop.simps connect_def DEVICE_IDS_def)

section \<open>Properties of the reading loops\<close>

lemma hex_length: "length (hex bs) = 2 * length bs"
  by (induction bs) (simp_all add: hex_def hex_byte_def)

lemma hex_eq_Nil: "hex bs = [] \<longleftrightarrow> bs = []"
  by (cases bs) (simp_all add: hex_def hex_byte_def)


lemma advance_0: "advance 0 h = h"
  by (simp add: advance_def)



lemma writes_advance: "writes (advance n h) = writes h"
  by (simp add: advance_def)

lemma read_bytes_str_read_at: "read_bytes_str 64 h = (read_at h 0, advance 1 h)"
  by (cases "reads h")
     (simp_all add: read_bytes_str_def hid_read_def read_at_def advance_def hex_def drop_Suc)




lemma await_first_silent: "\<not> list_ex (\<lambda>r. r \<noteq> []) (reads h) \<Longrightarrow> await_first h = None"
proof (induction "reads h" arbitrary: h)
  case Nil
  then show ?case by (subst await_first.simps) simp
next
  case (Cons r rs)
  from Cons(2) have rh: "reads h = r # rs" by simp
  from Cons(3) have r: "r = []" and rs: "\<not> list_ex (\<lambda>r. r \<noteq> []) rs"
    by (simp_all add: rh)
  have "rs = reads (advance 1 h)" by (simp add: advance_def rh)
  from Cons(1) [OF this] rs this have "await_first (advance 1 h) = None" by simp
  moreover have "read_at h 0 = []" using r by (simp add: read_at_def hex_def rh)
  moreover have "reads h \<noteq> []" using rh by simp
  ultimately show ?case
    by (subst await_first.simps) (simp add: read_bytes_str_read_at)
qed




text \<open>
  The test \<^verbatim>\<open>len(ok_sign2) == 64\<close> of \<^verbatim>\<open>sign\<close> is made on the hexadecimal text, 128
  characters for a full report, so a full report never ends a loop early: with exactly
  eight full reports waiting, the second loop reads the seven that are left and three
  time-outs, and \<^verbatim>\<open>sign\<close> gives up.
\<close>

lemma sign_read_full_reports:
  "sign_read \<lparr>writes = [], reads = [replicate 64 1, replicate 64 2, replicate 64 3,
        replicate 64 4, replicate 64 5, replicate 64 6, replicate 64 7, replicate 64 8]\<rparr>
     = Some (Inl (Exception ''failed to read signature from OnlyKey''),
             \<lparr>writes = [], reads = []\<rparr>)"
  by (simp add: sign_read_def await_first.simps read_bytes_str_def hid_read_def hex_eq_Nil
      hex_length eval_nat_numeral)

end
